theory Spec2Isabelle
  imports Main "HOL-Library.Word"
begin

unbundle bit_operations_syntax

section \<open>Bytes, strings and errors\<close>

text \<open>
  A Go \<open>[]byte\<close> is a list of 8-bit words. A Go \<open>string\<close> is a sequence of bytes as
  well; it is modelled by \<open>string\<close>, whose characters are bytes, and
  \<open>[]byte(s)\<close> is \<open>bytes_of s\<close>. A Go \<open>error\<close> is represented by its message;
  \<open>nil\<close> is \<open>None\<close>.
\<close>

type_synonym byte = "8 word"
type_synonym w32 = "32 word"
type_synonym error = string

definition bytes_of :: "string \<Rightarrow> byte list" where
  "bytes_of s = map of_char s"

section \<open>The hash function of \<open>crypto/sha256\<close>\<close>

text \<open>
  \<open>sha256.New\<close>, \<open>Write\<close>, \<open>Sum(nil)\<close> applied to one byte slice compute its
  SHA-256 digest. The digest function is written out here after FIPS 180-4: padding to a
  multiple of 64 bytes, the message schedule of 64 words, 64 rounds on eight working
  words, and the big-endian output of the eight chaining words.
\<close>

definition rotr32 :: "nat \<Rightarrow> w32 \<Rightarrow> w32" where
  "rotr32 n x = drop_bit n x OR push_bit (32 - n) x"

definition Ch :: "w32 \<Rightarrow> w32 \<Rightarrow> w32 \<Rightarrow> w32" where
  "Ch x y z = (x AND y) XOR (NOT x AND z)"

definition Maj :: "w32 \<Rightarrow> w32 \<Rightarrow> w32 \<Rightarrow> w32" where
  "Maj x y z = (x AND y) XOR (x AND z) XOR (y AND z)"

definition bsig0 :: "w32 \<Rightarrow> w32" where
  "bsig0 x = rotr32 2 x XOR rotr32 13 x XOR rotr32 22 x"

definition bsig1 :: "w32 \<Rightarrow> w32" where
  "bsig1 x = rotr32 6 x XOR rotr32 11 x XOR rotr32 25 x"

definition ssig0 :: "w32 \<Rightarrow> w32" where
  "ssig0 x = rotr32 7 x XOR rotr32 18 x XOR drop_bit 3 x"

definition ssig1 :: "w32 \<Rightarrow> w32" where
  "ssig1 x = rotr32 17 x XOR rotr32 19 x XOR drop_bit 10 x"

text \<open>The 64 round constants, eight to a row.\<close>

definition K256 :: "w32 list" where
  "K256 =
     [0x428a2f98, 0x71374491, 0xb5c0fbcf, 0xe9b5dba5, 0x3956c25b, 0x59f111f1, 0x923f82a4, 0xab1c5ed5] @
     [0xd807aa98, 0x12835b01, 0x243185be, 0x550c7dc3, 0x72be5d74, 0x80deb1fe, 0x9bdc06a7, 0xc19bf174] @
     [0xe49b69c1, 0xefbe4786, 0x0fc19dc6, 0x240ca1cc, 0x2de92c6f, 0x4a7484aa, 0x5cb0a9dc, 0x76f988da] @
     [0x983e5152, 0xa831c66d, 0xb00327c8, 0xbf597fc7, 0xc6e00bf3, 0xd5a79147, 0x06ca6351, 0x14292967] @
     [0x27b70a85, 0x2e1b2138, 0x4d2c6dfc, 0x53380d13, 0x650a7354, 0x766a0abb, 0x81c2c92e, 0x92722c85] @
     [0xa2bfe8a1, 0xa81a664b, 0xc24b8b70, 0xc76c51a3, 0xd192e819, 0xd6990624, 0xf40e3585, 0x106aa070] @
     [0x19a4c116, 0x1e376c08, 0x2748774c, 0x34b0bcb5, 0x391c0cb3, 0x4ed8aa4a, 0x5b9cca4f, 0x682e6ff3] @
     [0x748f82ee, 0x78a5636f, 0x84c87814, 0x8cc70208, 0x90befffa, 0xa4506ceb, 0xbef9a3f7, 0xc67178f2]"

definition init256 :: "w32 list" where
  "init256 =
   [0x6a09e667, 0xbb67ae85, 0x3c6ef372, 0xa54ff53a, 0x510e527f, 0x9b05688c, 0x1f83d9ab, 0x5be0cd19]"

definition be32 :: "byte list \<Rightarrow> w32" where
  "be32 bs = foldl (\<lambda>acc b. push_bit 8 acc OR ucast b) 0 bs"

definition bytes_of_w32 :: "w32 \<Rightarrow> byte list" where
  "bytes_of_w32 w = [ucast (drop_bit 24 w), ucast (drop_bit 16 w), ucast (drop_bit 8 w), ucast w]"

definition be64 :: "nat \<Rightarrow> byte list" where
  "be64 n = [of_nat (n div 2 ^ 56), of_nat (n div 2 ^ 48), of_nat (n div 2 ^ 40),
             of_nat (n div 2 ^ 32), of_nat (n div 2 ^ 24), of_nat (n div 2 ^ 16),
             of_nat (n div 2 ^ 8), of_nat n]"

definition pad256 :: "byte list \<Rightarrow> byte list" where
  "pad256 m = m @ [0x80] @ replicate ((119 - length m mod 64) mod 64) 0 @ be64 (8 * length m)"

primrec pieces :: "nat \<Rightarrow> nat \<Rightarrow> 'a list \<Rightarrow> 'a list list" where
  "pieces 0 sz xs = []"
| "pieces (Suc n) sz xs = take sz xs # pieces n sz (drop sz xs)"

text \<open>
  The message schedule \<open>W\<^sub>t = ssig1 W\<^sub>t\<^sub>-\<^sub>2 + W\<^sub>t\<^sub>-\<^sub>7 + ssig0 W\<^sub>t\<^sub>-\<^sub>1\<^sub>5 + W\<^sub>t\<^sub>-\<^sub>1\<^sub>6\<close>, computed on the
  list of the words so far with the most recent word first.
\<close>

primrec schedule :: "nat \<Rightarrow> w32 list \<Rightarrow> w32 list" where
  "schedule 0 v = v"
| "schedule (Suc n) v = schedule n ((ssig1 (v ! 1) + v ! 6 + ssig0 (v ! 14) + v ! 15) # v)"

fun round256 :: "w32 list \<Rightarrow> w32 \<times> w32 \<Rightarrow> w32 list" where
  "round256 [a, b, c, d, e, f, g, h] (k, w) =
     (let t1 = h + bsig1 e + Ch e f g + k + w;
          t2 = bsig0 a + Maj a b c
      in [t1 + t2, a, b, c, d + t1, e, f, g])"
| "round256 s _ = s"

definition compress :: "w32 list \<Rightarrow> byte list \<Rightarrow> w32 list" where
  "compress hs block =
     map2 (+) hs
       (foldl round256 hs (zip K256 (rev (schedule 48 (rev (map be32 (pieces 16 4 block)))))))"

definition sha256 :: "byte list \<Rightarrow> byte list" where
  "sha256 m = concat (map bytes_of_w32
      (foldl compress init256 (pieces (length (pad256 m) div 64) 64 (pad256 m))))"

text \<open>
  Three digests for concrete checks: the SHA-256 digest of the four bytes of \<open>test\<close>,
  the digest of that digest, and the digest of the latter.
\<close>

definition digest1 :: "byte list" where
  "digest1 =
     [0x9f, 0x86, 0xd0, 0x81, 0x88, 0x4c, 0x7d, 0x65, 0x9a, 0x2f, 0xea, 0xa0, 0xc5, 0x5a, 0xd0, 0x15, 0xa3, 0xbf, 0x4f, 0x1b, 0x2b, 0x0b, 0x82, 0x2c, 0xd1, 0x5d, 0x6c, 0x15, 0xb0, 0xf0, 0x0a, 0x08]"

definition digest2 :: "byte list" where
  "digest2 =
     [0x95, 0x4d, 0x5a, 0x49, 0xfd, 0x70, 0xd9, 0xb8, 0xbc, 0xdb, 0x35, 0xd2, 0x52, 0x26, 0x78, 0x29, 0x95, 0x7f, 0x7e, 0xf7, 0xfa, 0x6c, 0x74, 0xf8, 0x84, 0x19, 0xbd, 0xc5, 0xe8, 0x22, 0x09, 0xf4]"

definition digest3 :: "byte list" where
  "digest3 =
     [0xbe, 0x2e, 0xf4, 0x97, 0x1b, 0x24, 0x40, 0x5d, 0xf0, 0x54, 0x1f, 0x95, 0xfe, 0x61, 0x58, 0xac, 0x66, 0x1e, 0x69, 0x97, 0x13, 0x37, 0xff, 0x72, 0x60, 0xb2, 0x19, 0xd1, 0x05, 0x6e, 0xbc, 0x3b]"

section \<open>Slices and \<open>copy\<close>\<close>

text \<open>
  \<open>go_slice lo hi xs\<close> is the Go slice expression \<open>xs[lo:hi]\<close> read as a value.
  \<open>copy_bytes dst src\<close> is the built-in \<open>copy(dst, src)\<close>: it overwrites the first
  \<open>min (len dst) (len src)\<close> elements of \<open>dst\<close> and returns that count together
  with the new contents of \<open>dst\<close>. \<open>copy_at xs lo hi src\<close> is
  \<open>copy(xs[lo:hi], src)\<close> seen from \<open>xs\<close>, whose array the sub-slice shares.
\<close>

definition go_slice :: "nat \<Rightarrow> nat \<Rightarrow> 'a list \<Rightarrow> 'a list" where
  "go_slice lo hi xs = take (hi - lo) (drop lo xs)"

definition copy_bytes :: "byte list \<Rightarrow> byte list \<Rightarrow> nat \<times> byte list" where
  "copy_bytes dst src =
     (let n = min (length dst) (length src) in (n, take n src @ drop n dst))"

definition copy_at :: "byte list \<Rightarrow> nat \<Rightarrow> nat \<Rightarrow> byte list \<Rightarrow> byte list" where
  "copy_at xs lo hi src = take lo xs @ snd (copy_bytes (go_slice lo hi xs) src) @ drop hi xs"

section \<open>The deterministic byte stream \<open>detRand\<close>\<close>

record detRand =
  data :: "byte list"
  offset :: nat

text \<open>
  The loop of \<open>newRand\<close>,
  \<^verbatim>\<open>for i := 32; i < len(data); i += 32 { ...; copy(data[i:i+32], hasher.Sum(nil)) }\<close>,
  with the loop variable as the first argument. The buffer has 8192 = 256 * 32 bytes, so
  every slice expression of the loop is within bounds.
\<close>

function fill :: "nat \<Rightarrow> byte list \<Rightarrow> byte list" where
  "fill i buf =
     (if i < length buf
      then fill (i + 32) (copy_at buf i (i + 32) (sha256 (go_slice (i - 32) i buf)))
      else buf)"
  by pat_completeness auto
termination
proof (relation "measure (\<lambda>(i, buf). length buf - i)")
  show "wf (measure (\<lambda>(i, buf :: byte list). length buf - i))"
    by simp
next
  fix i :: nat and buf :: "byte list"
  assume less: "i < length buf"
  have "length (copy_at buf i (i + 32) (sha256 (go_slice (i - 32) i buf))) \<le> length buf"
    by (simp add: copy_at_def copy_bytes_def go_slice_def Let_def min_def)
  with less show "((i + 32, copy_at buf i (i + 32) (sha256 (go_slice (i - 32) i buf))), (i, buf))
      \<in> measure (\<lambda>(i, buf). length buf - i)"
    by simp
qed

definition newRand :: "string \<Rightarrow> detRand" where
  "newRand seed =
     (let initial = sha256 (bytes_of seed);
          buf = replicate 8192 0;
          buf = snd (copy_bytes buf initial)
      in \<lparr>data = fill 32 buf, offset = 0\<rparr>)"

text \<open>
  \<open>Read r p\<close> returns the count \<open>n\<close>, the error, the contents of \<open>p\<close> after the
  call and the stream after the call. The offset of a stream is never negative and never
  beyond the buffer length, so \<open>r.data[r.offset:]\<close> is always within bounds.
\<close>

definition Read :: "detRand \<Rightarrow> byte list \<Rightarrow> nat \<times> error option \<times> byte list \<times> detRand" where
  "Read r p =
     (let r1 = (if length (data r) \<le> offset r
                then (let newData = sha256 (data r)
                      in r\<lparr>data := snd (copy_bytes (data r) newData), offset := 0\<rparr>)
                else r);
          (n, p') = copy_bytes p (drop (offset r1) (data r1))
      in (n, None, p', r1\<lparr>offset := offset r1 + n\<rparr>))"

definition Read_n :: "detRand \<Rightarrow> byte list \<Rightarrow> nat" where
  "Read_n r p = fst (Read r p)"

definition Read_err :: "detRand \<Rightarrow> byte list \<Rightarrow> error option" where
  "Read_err r p = fst (snd (Read r p))"

definition Read_buf :: "detRand \<Rightarrow> byte list \<Rightarrow> byte list" where
  "Read_buf r p = fst (snd (snd (Read r p)))"

definition Read_stream :: "detRand \<Rightarrow> byte list \<Rightarrow> detRand" where
  "Read_stream r p = snd (snd (snd (Read r p)))"

text \<open>
  A caller that draws from the stream: \<open>reads r ns\<close> calls \<open>Read\<close> once for each
  size in \<open>ns\<close>, each time with a fresh buffer \<open>make([]byte, n)\<close>, and collects the
  bytes \<open>p[:k]\<close> that each call reports, in order.
\<close>

fun reads :: "detRand \<Rightarrow> nat list \<Rightarrow> byte list \<times> detRand" where
  "reads r [] = ([], r)"
| "reads r (n # ns) =
     (case Read r (replicate n 0) of
        (k, err, p, r') \<Rightarrow> (case reads r' ns of (out, r'') \<Rightarrow> (take k p @ out, r'')))"

text \<open>
  \<open>drained seed\<close> is the stream for \<open>seed\<close> after one \<open>Read\<close> with a buffer of
  8192 bytes: its cursor has reached the end of the buffer.
\<close>

definition drained :: "string \<Rightarrow> detRand" where
  "drained seed = Read_stream (newRand seed) (replicate 8192 0)"

text \<open>
  The hash chain of \<open>m\<close> blocks over \<open>h\<close>: the digest of \<open>h\<close>, then the digest of that
  digest, and so on.
\<close>

primrec hash_chain :: "nat \<Rightarrow> byte list \<Rightarrow> byte list" where
  "hash_chain 0 h = []"
| "hash_chain (Suc m) h = sha256 h @ hash_chain m (sha256 h)"

section \<open>The key generator \<open>DetKeyGen\<close>\<close>

record DetKeyGen =
  keyID :: string
  keyData :: "byte list"

text \<open>
  \<open>generateKey\<close> calls into \<open>crypto/ed25519\<close>, \<open>go-libp2p\<close>, \<open>go-multibase\<close>,
  \<open>crypto/x509\<close> and \<open>encoding/pem\<close>. These packages are not part of the program; each
  call is a function of its arguments, and the ones that return an \<open>error\<close> give
  \<open>Inl\<close> of its message on failure. \<open>ToCidStringOfBase\<close> stands for
  \<open>peer.ToCid(id).StringOfBase(multibase.Base36)\<close>, and \<open>pemEncode\<close> takes the block
  type and the block bytes and returns what \<open>pem.Encode\<close> writes to the buffer.
\<close>

record packages =
  NewKeyFromSeed :: "byte list \<Rightarrow> byte list"
  Public :: "byte list \<Rightarrow> byte list"
  UnmarshalEd25519PublicKey :: "byte list \<Rightarrow> error + byte list"
  IDFromPublicKey :: "byte list \<Rightarrow> error + byte list"
  ToCidStringOfBase :: "byte list \<Rightarrow> error + string"
  MarshalPKCS8PrivateKey :: "byte list \<Rightarrow> error + byte list"
  pemEncode :: "string \<Rightarrow> byte list \<Rightarrow> error + byte list"

text \<open>
  \<open>generateKey\<close> returns its error and the generator after the call. The generator is
  written twice: \<open>keyID\<close> once the identifier is known, \<open>keyData\<close> at the end.
\<close>

definition generateKey :: "packages \<Rightarrow> string \<Rightarrow> DetKeyGen \<Rightarrow> error option \<times> DetKeyGen" where
  "generateKey L name g =
     (let reader = newRand name;
          seedBytes = replicate 32 0;
          (n, err, seedBytes, reader) = Read reader seedBytes
      in (case err of
            Some e \<Rightarrow> (Some (''failed to generate seed: '' @ e), g)
          | None \<Rightarrow>
     (let privateKey = NewKeyFromSeed L seedBytes;
          publicKey = Public L privateKey
      in (case UnmarshalEd25519PublicKey L publicKey of
            Inl e \<Rightarrow> (Some (''failed to convert to libp2p public key: '' @ e), g)
          | Inr libp2pPubKey \<Rightarrow>
         (case IDFromPublicKey L libp2pPubKey of
            Inl e \<Rightarrow> (Some (''failed to generate peer ID: '' @ e), g)
          | Inr peerID \<Rightarrow>
         (case ToCidStringOfBase L peerID of
            Inl e \<Rightarrow> (Some (''failed to convert to CIDv1: '' @ e), g)
          | Inr cidStr \<Rightarrow>
     (let g = g\<lparr>keyID := cidStr\<rparr>
      in (case MarshalPKCS8PrivateKey L privateKey of
            Inl e \<Rightarrow> (Some (''failed to convert key format: '' @ e), g)
          | Inr privateKeyBytes \<Rightarrow>
         (case pemEncode L ''PRIVATE KEY'' privateKeyBytes of
            Inl e \<Rightarrow> (Some (''failed to generate PEM data: '' @ e), g)
          | Inr pemBuf \<Rightarrow> (None, g\<lparr>keyData := pemBuf\<rparr>))))))))))"

definition NewKeyGen :: "packages \<Rightarrow> string \<Rightarrow> error + DetKeyGen" where
  "NewKeyGen L name =
     (let g = \<lparr>keyID = [], keyData = []\<rparr>
      in (case generateKey L name g of
            (Some err, g) \<Rightarrow> Inl err
          | (None, g) \<Rightarrow> Inr g))"

definition GetKeyID :: "DetKeyGen \<Rightarrow> string" where
  "GetKeyID g = keyID g"

definition GetKeyData :: "DetKeyGen \<Rightarrow> byte list" where
  "GetKeyData g = keyData g"

text \<open>
  Packages for concrete runs of \<open>generateKey\<close>: every call succeeds and returns its
  argument (the identifier is the text \<open>id:\<close>).
\<close>

definition plain_packages :: packages where
  "plain_packages =
     \<lparr>NewKeyFromSeed = (\<lambda>seed. seed), Public = (\<lambda>priv. priv),
      UnmarshalEd25519PublicKey = Inr, IDFromPublicKey = Inr,
      ToCidStringOfBase = (\<lambda>id. Inr ''id:''), MarshalPKCS8PrivateKey = Inr,
      pemEncode = (\<lambda>type bytes. Inr bytes)\<rparr>"

section \<open>The key service\<close>

text \<open>
  \<open>KeyGenerator\<close> and \<open>KeyImporter\<close> are interfaces: a \<open>KeyService\<close> holds one
  implementation of each. A call of an interface method may act on the world outside the
  program (the importer of \<open>main\<close> posts to an HTTP endpoint), so each method takes the
  state \<open>'w\<close> of that world and returns it with its result.
\<close>

record 'w KeyService =
  generator :: "'w \<Rightarrow> byte list \<times> 'w"
  importer :: "string \<Rightarrow> byte list \<Rightarrow> 'w \<Rightarrow> error option \<times> 'w"

definition GenerateAndImportKey :: "'w KeyService \<Rightarrow> string \<Rightarrow> 'w \<Rightarrow> error option \<times> 'w" where
  "GenerateAndImportKey s name w =
     (let (kdata, w) = generator s w;
          (err, w) = importer s name kdata w
      in (case err of
            Some e \<Rightarrow> (Some (''failed to import key: '' @ e), w)
          | None \<Rightarrow> (None, w)))"

text \<open>
  Implementations of the two interfaces for concrete runs: the generator that
  \<open>main\<close> passes (a \<open>DetKeyGen\<close>, whose \<open>GetKeyData\<close> reads a field), and an
  importer that records each call in a log and reports a fixed outcome.
\<close>

definition DetKeyGen_generator :: "DetKeyGen \<Rightarrow> 'w \<Rightarrow> byte list \<times> 'w" where
  "DetKeyGen_generator g w = (GetKeyData g, w)"

definition logging_importer ::
  "error option \<Rightarrow> string \<Rightarrow> byte list \<Rightarrow> (string \<times> byte list) list
     \<Rightarrow> error option \<times> (string \<times> byte list) list" where
  "logging_importer outcome name kdata log = (outcome, log @ [(name, kdata)])"

section \<open>Properties of the hash function\<close>

lemma length_round256: "length (round256 s kw) = length s"
  by (induction s kw rule: round256.induct) (simp_all add: Let_def)

lemma length_rounds: "length (foldl round256 s kws) = length s"
  by (induction kws arbitrary: s) (simp_all add: length_round256)

lemma length_compress: "length (compress hs block) = length hs"
  by (simp add: compress_def length_rounds)

lemma length_blocks: "length (foldl compress hs blocks) = length hs"
  by (induction blocks arbitrary: hs) (simp_all add: length_compress)

lemma length_concat_words: "length (concat (map bytes_of_w32 ws)) = 4 * length ws"
  by (induction ws) (simp_all add: bytes_of_w32_def)

lemma sha256_length: "length (sha256 m) = 32"
  by (simp add: sha256_def length_concat_words length_blocks init256_def)

section \<open>Evaluating the hash function\<close>

text \<open>
  A message shorter than 56 bytes is padded to one block. The digest of such a message is
  computed step by step: the padded block, its sixteen words, the schedule, the 64 rounds
  and the final addition, each result reduced to a 32-bit numeral before the next step.
\<close>

lemma replicate_numeral: "replicate (numeral k) x = x # replicate (pred_numeral k) x"
  by (simp add: numeral_eq_Suc)

lemma pieces_numeral:
  "pieces (numeral k) sz xs = take sz xs # pieces (pred_numeral k) sz (drop sz xs)"
  by (simp add: numeral_eq_Suc)

lemma schedule_step:
  "pred_numeral k = n \<Longrightarrow> unat (ssig1 (v ! 1) + v ! 6 + ssig0 (v ! 14) + v ! 15) = m \<Longrightarrow>
   schedule n (of_nat m # v) = r \<Longrightarrow> schedule (numeral k) v = r"
  by (auto simp: numeral_eq_Suc)

lemma schedule_last:
  "unat (ssig1 (v ! 1) + v ! 6 + ssig0 (v ! 14) + v ! 15) = m \<Longrightarrow> of_nat m # v = r \<Longrightarrow>
   schedule (Suc 0) v = r"
  by auto

lemma rounds_step:
  "round256 s kw = s' \<Longrightarrow> map unat s' = ns \<Longrightarrow> foldl round256 (map of_nat ns) kws = r \<Longrightarrow>
   foldl round256 s (kw # kws) = r"
  by (auto simp: comp_def)

lemma compress_eval:
  "rev (map be32 (pieces 16 4 block)) = v16 \<Longrightarrow> schedule 48 v16 = v \<Longrightarrow>
   zip K256 (rev v) = kws \<Longrightarrow> foldl round256 hs kws = s \<Longrightarrow> map unat (map2 (+) hs s) = ns \<Longrightarrow>
   map of_nat ns = r \<Longrightarrow> compress hs block = r"
  by (auto simp: compress_def comp_def)

lemma length_pad256_short:
  assumes "length m < 56"
  shows "length (pad256 m) = 64"
proof -
  have "119 - length m mod 64 = 64 + (55 - length m)"
    using assms by simp
  then have "(119 - length m mod 64) mod 64 = 55 - length m"
    by (simp only: mod_add_self1) simp
  then show ?thesis
    using assms by (simp add: pad256_def be64_def)
qed

lemma sha256_one_block:
  "length m < 56 \<Longrightarrow> pad256 m = block \<Longrightarrow>
   compress [0x6a09e667, 0xbb67ae85, 0x3c6ef372, 0xa54ff53a,
             0x510e527f, 0x9b05688c, 0x1f83d9ab, 0x5be0cd19] block = hs \<Longrightarrow>
   concat (map bytes_of_w32 hs) = d \<Longrightarrow> sha256 m = d"
  using length_pad256_short [of m] by (auto simp: sha256_def init256_def)

lemma sha256_test: "sha256 (bytes_of ''test'') = digest1"
  unfolding digest1_def
  apply (rule sha256_one_block)
     apply (simp add: bytes_of_def)
    apply (simp add: pad256_def bytes_of_def be64_def replicate_numeral)
   apply (rule compress_eval)
        apply (simp add: pieces_numeral be32_def)
       apply ((rule schedule_step, simp, simp add: ssig0_def ssig1_def rotr32_def)+)[1]
       apply (rule schedule_last, simp add: ssig0_def ssig1_def rotr32_def)
       apply simp
      apply (simp add: K256_def)
     apply ((rule rounds_step, simp add: bsig0_def bsig1_def Ch_def Maj_def rotr32_def, simp)+)[1]
     apply simp
    apply simp
   apply simp
  apply (simp add: bytes_of_w32_def)
  done

lemma sha256_digest1: "sha256 digest1 = digest2"
  unfolding digest1_def digest2_def
  apply (rule sha256_one_block)
     apply simp
    apply (simp add: pad256_def bytes_of_def be64_def replicate_numeral)
   apply (rule compress_eval)
        apply (simp add: pieces_numeral be32_def)
       apply ((rule schedule_step, simp, simp add: ssig0_def ssig1_def rotr32_def)+)[1]
       apply (rule schedule_last, simp add: ssig0_def ssig1_def rotr32_def)
       apply simp
      apply (simp add: K256_def)
     apply ((rule rounds_step, simp add: bsig0_def bsig1_def Ch_def Maj_def rotr32_def, simp)+)[1]
     apply simp
    apply simp
   apply simp
  apply (simp add: bytes_of_w32_def)
  done

lemma sha256_digest2: "sha256 digest2 = digest3"
  unfolding digest2_def digest3_def
  apply (rule sha256_one_block)
     apply simp
    apply (simp add: pad256_def bytes_of_def be64_def replicate_numeral)
   apply (rule compress_eval)
        apply (simp add: pieces_numeral be32_def)
       apply ((rule schedule_step, simp, simp add: ssig0_def ssig1_def rotr32_def)+)[1]
       apply (rule schedule_last, simp add: ssig0_def ssig1_def rotr32_def)
       apply simp
      apply (simp add: K256_def)
     apply ((rule rounds_step, simp add: bsig0_def bsig1_def Ch_def Maj_def rotr32_def, simp)+)[1]
     apply simp
    apply simp
   apply simp
  apply (simp add: bytes_of_w32_def)
  done

lemma digest2_neq_digest3: "digest2 \<noteq> digest3"
  by (simp add: digest2_def digest3_def)

section \<open>Properties of \<open>copy\<close> and of the fill loop\<close>

lemma copy_bytes_digest:
  "length src = 32 \<Longrightarrow> 32 \<le> length dst \<Longrightarrow> copy_bytes dst src = (32, src @ drop 32 dst)"
  by (simp add: copy_bytes_def Let_def)

lemma copy_at_block:
  assumes "length src = 32" and "i + 32 \<le> length xs"
  shows "copy_at xs i (i + 32) src = take i xs @ src @ drop (i + 32) xs"
proof -
  have "length (go_slice i (i + 32) xs) = 32"
    using assms by (simp add: go_slice_def)
  then have "snd (copy_bytes (go_slice i (i + 32) xs) src) = src"
    using assms by (simp add: copy_bytes_def Let_def)
  then show ?thesis by (simp add: copy_at_def)
qed

lemma length_hash_chain: "length (hash_chain m h) = 32 * m"
  by (induction m arbitrary: h) (simp_all add: sha256_length)

lemma fill_chain:
  "length buf = i + 32 * m \<Longrightarrow> 32 \<le> i \<Longrightarrow>
   fill i buf = take i buf @ hash_chain m (go_slice (i - 32) i buf)"
proof (induction m arbitrary: i buf)
  case 0
  then show ?case by (subst fill.simps) simp
next
  case (Suc m)
  let ?h = "sha256 (go_slice (i - 32) i buf)"
  let ?buf = "copy_at buf i (i + 32) ?h"
  have less: "i < length buf" using Suc.prems by simp
  have buf': "?buf = take i buf @ ?h @ drop (i + 32) buf"
    using Suc.prems by (intro copy_at_block) (simp_all add: sha256_length)
  have len: "length ?buf = (i + 32) + 32 * m"
    using Suc.prems by (simp only: buf') (simp add: sha256_length)
  have prev: "go_slice ((i + 32) - 32) (i + 32) ?buf = ?h"
    using Suc.prems by (simp only: buf') (simp add: go_slice_def sha256_length)
  have pre: "take (i + 32) ?buf = take i buf @ ?h"
    using Suc.prems by (simp only: buf') (simp add: sha256_length)
  have "fill i buf = fill (i + 32) ?buf"
    using less by (subst fill.simps) simp
  also have "\<dots> = take (i + 32) ?buf @ hash_chain m (go_slice ((i + 32) - 32) (i + 32) ?buf)"
    using len by (intro Suc.IH) simp_all
  also have "\<dots> = take i buf @ hash_chain (Suc m) (go_slice (i - 32) i buf)"
    by (simp only: prev pre) simp
  finally show ?case .
qed

lemma newRand_data: "data (newRand seed) = hash_chain 256 (bytes_of seed)"
proof -
  let ?h = "sha256 (bytes_of seed)"
  let ?buf = "?h @ replicate 8160 (0 :: byte)"
  have start: "snd (copy_bytes (replicate 8192 0) ?h) = ?buf"
    by (simp add: copy_bytes_digest sha256_length)
  have "fill 32 ?buf = take 32 ?buf @ hash_chain 255 (go_slice (32 - 32) 32 ?buf)"
    by (rule fill_chain) (simp_all add: sha256_length)
  also have "\<dots> = ?h @ hash_chain 255 ?h"
    by (simp add: go_slice_def sha256_length)
  also have "\<dots> = hash_chain (Suc 255) (bytes_of seed)"
    by (simp only: hash_chain.simps)
  finally show ?thesis
    by (simp add: newRand_def Let_def start)
qed

lemma newRand_offset: "offset (newRand seed) = 0"
  by (simp add: newRand_def Let_def)

lemma length_newRand: "length (data (newRand seed)) = 8192"
  by (simp add: newRand_data length_hash_chain)

lemma slice_hash_chain:
  "k < m \<Longrightarrow> go_slice (32 * k) (32 * k + 32) (hash_chain m h) = (sha256 ^^ Suc k) h"
proof (induction m arbitrary: k h)
  case 0
  then show ?case by simp
next
  case (Suc m)
  show ?case
  proof (cases k)
    case 0
    then show ?thesis by (simp add: go_slice_def sha256_length)
  next
    case (Suc j)
    with Suc.prems have "j < m" by simp
    from Suc.IH [OF this, of "sha256 h"] show ?thesis
      using Suc by (simp add: go_slice_def sha256_length funpow_swap1)
  qed
qed

lemma newRand_block:
  "k < 256 \<Longrightarrow> go_slice (32 * k) (32 * k + 32) (data (newRand seed)) = (sha256 ^^ Suc k) (bytes_of seed)"
  by (simp add: newRand_data slice_hash_chain)

section \<open>Properties of \<open>Read\<close>\<close>

lemma Read_within:
  assumes "offset r < length (data r)"
  shows "Read r p =
    (min (length p) (length (data r) - offset r), None,
     take (min (length p) (length (data r) - offset r)) (drop (offset r) (data r))
       @ drop (min (length p) (length (data r) - offset r)) p,
     r\<lparr>offset := offset r + min (length p) (length (data r) - offset r)\<rparr>)"
  using assms by (simp add: Read_def copy_bytes_def Let_def)

lemma Read_at_end:
  assumes "length (data r) \<le> offset r" and "32 \<le> length (data r)"
  shows "Read r p =
    (min (length p) (length (data r)), None,
     take (min (length p) (length (data r))) (sha256 (data r) @ drop 32 (data r))
       @ drop (min (length p) (length (data r))) p,
     r\<lparr>data := sha256 (data r) @ drop 32 (data r), offset := min (length p) (length (data r))\<rparr>)"
  using assms by (simp add: Read_def copy_bytes_digest sha256_length Let_def copy_bytes_def)

lemma Read_offset_le: "offset (Read_stream r p) \<le> length (data (Read_stream r p))"
  by (auto simp: Read_stream_def Read_def copy_bytes_def Let_def min_def split: prod.splits)

lemma Read_newRand_32:
  "Read (newRand seed) (replicate 32 0) =
     (32, None, sha256 (bytes_of seed), (newRand seed)\<lparr>offset := 32\<rparr>)"
proof -
  have "take 32 (data (newRand seed)) = sha256 (bytes_of seed)"
    using newRand_block [of 0 seed] by (simp add: go_slice_def)
  then show ?thesis
    by (simp add: Read_within newRand_offset length_newRand)
qed

lemma drained_eq: "drained seed = (newRand seed)\<lparr>offset := 8192\<rparr>"
  by (simp add: drained_def Read_stream_def Read_within newRand_offset length_newRand)

lemma reads_within:
  "\<forall>n\<in>set ns. 0 < n \<Longrightarrow> offset r + sum_list ns \<le> length (data r) \<Longrightarrow>
   reads r ns = (go_slice (offset r) (offset r + sum_list ns) (data r),
                 r\<lparr>offset := offset r + sum_list ns\<rparr>)"
proof (induction ns arbitrary: r)
  case Nil
  then show ?case by (simp add: go_slice_def)
next
  case (Cons n ns)
  let ?r = "r\<lparr>offset := offset r + n\<rparr>"
  from Cons.prems have n: "0 < n" "offset r + n \<le> length (data r)" by simp_all
  then have rd: "Read r (replicate n 0) = (n, None, take n (drop (offset r) (data r)), ?r)"
    by (simp add: Read_within min_absorb1)
  have "reads ?r ns = (go_slice (offset ?r) (offset ?r + sum_list ns) (data ?r),
          ?r\<lparr>offset := offset ?r + sum_list ns\<rparr>)"
    using Cons.prems by (intro Cons.IH) (simp_all add: add.assoc)
  then have ih: "reads ?r ns = (take (sum_list ns) (drop n (drop (offset r) (data r))),
          r\<lparr>offset := offset r + (n + sum_list ns)\<rparr>)"
    by (simp add: go_slice_def add.assoc add.commute)
  have "take (n + sum_list ns) (drop (offset r) (data r)) =
      take n (drop (offset r) (data r)) @ take (sum_list ns) (drop n (drop (offset r) (data r)))"
    by (rule take_add)
  then show ?case
    by (simp add: rd ih go_slice_def)
qed

lemma reads_append:
  "reads r (ns @ ms) =
     (fst (reads r ns) @ fst (reads (snd (reads r ns)) ms), snd (reads (snd (reads r ns)) ms))"
  by (induction ns arbitrary: r) (simp_all split: prod.splits)

lemma take1_digest: "take (Suc 0) (sha256 d) = [sha256 d ! 0]"
proof (cases "sha256 d")
  case Nil
  with sha256_length [of d] show ?thesis by simp
next
  case (Cons x ys)
  then show ?thesis by simp
qed

lemma slice_concat_replicate:
  "length h = 32 \<Longrightarrow> k < m \<Longrightarrow> go_slice (32 * k) (32 * k + 32) (concat (replicate m h)) = h"
proof (induction m arbitrary: k)
  case 0
  then show ?case by simp
next
  case (Suc m)
  show ?case
  proof (cases k)
    case 0
    with Suc.prems show ?thesis by (simp add: go_slice_def)
  next
    case (Suc j)
    with Suc.prems have "j < m" by simp
    from Suc.IH [OF Suc.prems(1) this] show ?thesis
      using Suc Suc.prems(1) by (simp add: go_slice_def)
  qed
qed

section \<open>The initial buffer is a hash chain\<close>

text \<open>
  Claim C3. For every seed the buffer that \<open>newRand\<close> builds is a hash chain: bytes
  0..31 are the SHA-256 digest of the seed, and every later 32-byte block, at the offsets
  32, 64, ..., 8160 that the loop visits, is the digest of the block just before it. For
  the seed \<open>test\<close> the first \<open>Read\<close> with a buffer of 32 bytes returns 32, no error,
  and the digest of \<open>test\<close>, which is \<open>9f86d081 884c7d65 9a2feaa0 c55ad015 a3bf4f1b 2b0b822c
  d15d6c15 b0f00a08\<close>.
\<close>

theorem newRand_hash_chain:
  "go_slice 0 32 (data (newRand seed)) = sha256 (bytes_of seed) \<and>
   (\<forall>i. 32 \<le> i \<and> i < 8192 \<and> i mod 32 = 0 \<longrightarrow>
      go_slice i (i + 32) (data (newRand seed))
        = sha256 (go_slice (i - 32) i (data (newRand seed)))) \<and>
   Read_n (newRand ''test'') (replicate 32 0) = 32 \<and>
   Read_err (newRand ''test'') (replicate 32 0) = None \<and>
   Read_buf (newRand ''test'') (replicate 32 0) = sha256 (bytes_of ''test'') \<and>
   Read_buf (newRand ''test'') (replicate 32 0) = digest1"
proof (intro conjI allI impI)
  show "go_slice 0 32 (data (newRand seed)) = sha256 (bytes_of seed)"
    using newRand_block [of 0 seed] by simp
next
  fix i :: nat
  assume i: "32 \<le> i \<and> i < 8192 \<and> i mod 32 = 0"
  then obtain k where k: "i = 32 * k"
    by (auto simp: mod_eq_0_iff_dvd dvd_def)
  with i have "1 \<le> k" "k < 256" by simp_all
  then obtain j where j: "k = Suc j" "j < 256" "Suc j < 256"
    by (cases k) simp_all
  have "go_slice i (i + 32) (data (newRand seed)) = (sha256 ^^ Suc (Suc j)) (bytes_of seed)"
    using newRand_block [of "Suc j" seed] j k by (simp add: add.commute)
  moreover have "go_slice (i - 32) i (data (newRand seed)) = (sha256 ^^ Suc j) (bytes_of seed)"
    using newRand_block [of j seed] j k by (simp add: add.commute)
  ultimately show "go_slice i (i + 32) (data (newRand seed))
      = sha256 (go_slice (i - 32) i (data (newRand seed)))"
    by simp
qed (simp_all add: Read_n_def Read_err_def Read_buf_def Read_newRand_32 sha256_test)

text \<open>The chain property at the offset 64, for the seed \<open>test\<close>.\<close>

theorem newRand_hash_chain_witness:
  "32 \<le> (64 :: nat) \<and> (64 :: nat) < 8192 \<and> (64 :: nat) mod 32 = 0 \<and>
   go_slice 64 (64 + 32) (data (newRand ''test''))
     = sha256 (go_slice (64 - 32) 64 (data (newRand ''test'')))"
proof -
  note chain = newRand_hash_chain [of "''test''", THEN conjunct2, THEN conjunct1]
  from chain [rule_format, of 64] show ?thesis by simp
qed

section \<open>Reading past the first buffer\<close>

text \<open>
  Claim C5. For every seed, reads of positive sizes that add up to 8192 deliver the whole
  buffer, none of them truncated; one more \<open>Read\<close> of a single byte then returns 1 and
  no error, and the byte is the first byte of the SHA-256 digest of the full 8192-byte
  buffer. So the stream has 8193 bytes after these reads, and byte 8193 is that byte.
\<close>

theorem byte_8193:
  assumes "\<forall>n\<in>set ns. 0 < n" and "sum_list ns = 8192"
  shows "fst (reads (newRand seed) ns) = data (newRand seed) \<and>
    Read_n (snd (reads (newRand seed) ns)) [b] = 1 \<and>
    Read_err (snd (reads (newRand seed) ns)) [b] = None \<and>
    Read_buf (snd (reads (newRand seed) ns)) [b] = [sha256 (data (newRand seed)) ! 0] \<and>
    length (fst (reads (newRand seed) (ns @ [1]))) = 8193 \<and>
    fst (reads (newRand seed) (ns @ [1])) ! 8192 = sha256 (data (newRand seed)) ! 0"
proof -
  let ?r = "newRand seed"
  let ?end = "?r\<lparr>offset := 8192\<rparr>"
  have all: "reads ?r ns = (data ?r, ?end)"
    using reads_within [of ns ?r] assms
    by (simp add: newRand_offset length_newRand go_slice_def)
  have one: "Read ?end p = (min (length p) 8192, None,
      take (min (length p) 8192) (sha256 (data ?r) @ drop 32 (data ?r)) @ drop (min (length p) 8192) p,
      ?end\<lparr>data := sha256 (data ?r) @ drop 32 (data ?r), offset := min (length p) 8192\<rparr>)" for p
    using Read_at_end [of ?end p] by (simp add: length_newRand)
  have more: "fst (reads ?r (ns @ [1])) = data ?r @ [sha256 (data ?r) ! 0]"
    by (simp add: reads_append all one take1_digest sha256_length)
  show ?thesis
    unfolding more
    by (simp add: all one Read_n_def Read_err_def Read_buf_def take1_digest
        sha256_length length_newRand nth_append)
qed

text \<open>The same with 256 reads of 32 bytes on the stream for \<open>test\<close>.\<close>

theorem byte_8193_witness:
  "list_all (\<lambda>n. 0 < n) (replicate 256 (32 :: nat)) \<and> sum_list (replicate 256 (32 :: nat)) = 8192 \<and>
   fst (reads (newRand ''test'') (replicate 256 32)) = data (newRand ''test'') \<and>
   Read_n (snd (reads (newRand ''test'') (replicate 256 32))) [0] = 1 \<and>
   Read_buf (snd (reads (newRand ''test'') (replicate 256 32))) [0]
     = [sha256 (data (newRand ''test'')) ! 0]"
proof -
  have h: "\<forall>n\<in>set (replicate 256 (32 :: nat)). 0 < n" "sum_list (replicate 256 (32 :: nat)) = 8192"
    by (simp_all add: sum_list_replicate)
  from byte_8193 [OF h, of "''test''" 0] h show ?thesis by (simp add: list_all_iff)
qed

section \<open>How many bytes one \<open>Read\<close> returns\<close>

text \<open>
  Claim C6, amended. A single \<open>Read\<close> never returns an error, and it returns
  \<open>min n k\<close> bytes for a buffer of length \<open>n\<close>, where \<open>k\<close> is the number of bytes
  between the cursor and the end of the stream's buffer (the whole buffer length when the
  cursor had reached the end). It returns exactly \<open>n\<close> bytes when the cursor is inside
  the buffer and \<open>n\<close> does not exceed \<open>k\<close>. The buffer \<open>p\<close> keeps its length.
\<close>

theorem Read_count:
  "Read_err r p = None \<and>
   Read_n r p = min (length p)
     (if length (data r) \<le> offset r then length (data r) else length (data r) - offset r) \<and>
   length (Read_buf r p) = length p \<and>
   (offset r < length (data r) \<and> length p \<le> length (data r) - offset r
      \<longrightarrow> Read_n r p = length p)"
  by (simp add: Read_def Read_n_def Read_err_def Read_buf_def copy_bytes_def Let_def
      split: prod.splits)

text \<open>A read of 32 bytes from the fresh stream for \<open>test\<close> returns all 32.\<close>

theorem Read_count_witness:
  "offset (newRand ''test'') < length (data (newRand ''test'')) \<and>
   length (replicate 32 (0 :: byte)) \<le> length (data (newRand ''test'')) - offset (newRand ''test'') \<and>
   Read_n (newRand ''test'') (replicate 32 0) = length (replicate 32 (0 :: byte)) \<and>
   Read_err (newRand ''test'') (replicate 32 0) = None"
  using Read_count [of "newRand ''test''" "replicate 32 0"]
  by (simp add: newRand_offset length_newRand)

text \<open>
  Claim C6 as stated (every \<open>Read\<close> returns exactly as many bytes as the buffer is long)
  fails: on the fresh stream for \<open>test\<close>, a \<open>Read\<close> with a buffer of 8193 bytes
  returns 8192.
\<close>

theorem Read_short_counterexample:
  "Read_n (newRand ''test'') (replicate 8193 0) \<noteq> length (replicate 8193 (0 :: byte))"
  by (simp add: Read_n_def Read_within newRand_offset length_newRand)

section \<open>The recycling step\<close>

text \<open>
  Claim C4, amended. When the cursor has reached the end of the buffer, \<open>Read\<close>
  overwrites the first 32 bytes of the buffer with the SHA-256 digest of the full current
  buffer and leaves the buffer at its length, resets the offset to zero, and copies from
  the start of the buffer, which advances the offset by the count it returns.
\<close>

theorem recycle_step_effect:
  "32 \<le> length (data r) \<Longrightarrow> length (data r) \<le> offset r \<Longrightarrow>
   data (Read_stream r p) = sha256 (data r) @ drop 32 (data r) \<and>
   length (data (Read_stream r p)) = length (data r) \<and>
   Read_n r p = min (length p) (length (data r)) \<and>
   offset (Read_stream r p) = 0 + Read_n r p \<and>
   Read_buf r p = take (Read_n r p) (data (Read_stream r p)) @ drop (Read_n r p) p"
  by (simp add: Read_stream_def Read_n_def Read_buf_def Read_at_end sha256_length)

text \<open>The recycling step on the drained stream for \<open>test\<close>, read with one byte.\<close>

theorem recycle_step_effect_witness:
  "32 \<le> length (data (drained ''test'')) \<and>
   length (data (drained ''test'')) \<le> offset (drained ''test'') \<and>
   data (Read_stream (drained ''test'') [0])
     = sha256 (data (drained ''test'')) @ drop 32 (data (drained ''test'')) \<and>
   Read_n (drained ''test'') [0] = 1 \<and>
   offset (Read_stream (drained ''test'') [0]) = 1"
proof -
  have h: "32 \<le> length (data (drained ''test''))"
    "length (data (drained ''test'')) \<le> offset (drained ''test'')"
    by (simp_all add: drained_eq length_newRand)
  from recycle_step_effect [OF h, of "[0]"] h show ?thesis
    by (simp add: drained_eq length_newRand)
qed

text \<open>
  Claim C4 as stated (after the recycling step the buffer holds the 32 bytes of the digest
  and nothing else, repeated across the buffer) fails on the drained stream for
  \<open>test\<close>: after the next \<open>Read\<close> the buffer is neither the digest repeated 256 times
  nor the digest alone. Bytes 32..63 are still \<open>digest2\<close> and bytes 64..95 are still
  \<open>digest3\<close>, which differ.
\<close>

theorem recycle_repeats_counterexample:
  "data (Read_stream (drained ''test'') [0])
     \<noteq> concat (replicate 256 (sha256 (data (drained ''test'')))) \<and>
   data (Read_stream (drained ''test'') [0]) \<noteq> sha256 (data (drained ''test''))"
proof -
  let ?d = "data (newRand ''test'')"
  let ?h = "sha256 ?d"
  let ?d' = "data (Read_stream (drained ''test'') [0])"
  have d': "?d' = ?h @ drop 32 ?d"
    by (simp add: Read_stream_def Read_at_end drained_eq length_newRand)
  have b1: "go_slice 32 64 ?d' = digest2"
    using newRand_block [of 1 "''test''"]
    by (simp add: d' go_slice_def sha256_length sha256_test sha256_digest1)
  have b2: "go_slice 64 96 ?d' = digest3"
    using newRand_block [of 2 "''test''"]
    by (simp add: d' go_slice_def sha256_length sha256_test sha256_digest1 sha256_digest2
        numeral_2_eq_2)
  have "?d' \<noteq> concat (replicate 256 ?h)"
  proof
    assume eq: "?d' = concat (replicate 256 ?h)"
    have "go_slice (32 * 1) (32 * 1 + 32) (concat (replicate 256 ?h)) = ?h"
      by (rule slice_concat_replicate) (simp_all add: sha256_length)
    moreover have "go_slice (32 * 2) (32 * 2 + 32) (concat (replicate 256 ?h)) = ?h"
      by (rule slice_concat_replicate) (simp_all add: sha256_length)
    ultimately have "go_slice 32 64 ?d' = go_slice 64 96 ?d'"
      by (simp add: eq)
    with b1 b2 digest2_neq_digest3 show False by simp
  qed
  moreover have "length ?d' \<noteq> length ?h"
    by (simp add: d' sha256_length length_newRand)
  then have "?d' \<noteq> ?h" by auto
  ultimately show ?thesis by (simp add: drained_eq)
qed

text \<open>
  Claim C10. When the cursor has reached the end of the 8192-byte buffer, \<open>Read\<close>
  overwrites bytes 0..31 of the buffer with the SHA-256 digest of the full buffer, and the
  bytes 32..8191 keep the values they had before.
\<close>

theorem Read_recycle_frame:
  "length (data r) = 8192 \<Longrightarrow> 8192 \<le> offset r \<Longrightarrow>
   go_slice 0 32 (data (Read_stream r p)) = sha256 (data r) \<and>
   go_slice 32 8192 (data (Read_stream r p)) = go_slice 32 8192 (data r) \<and>
   (\<forall>i. 32 \<le> i \<and> i < 8192 \<longrightarrow> data (Read_stream r p) ! i = data r ! i) \<and>
   length (data (Read_stream r p)) = 8192"
  by (simp add: Read_stream_def Read_at_end go_slice_def sha256_length nth_append)

text \<open>The frame property on the drained stream for \<open>test\<close>, read with one byte.\<close>

theorem Read_recycle_frame_witness:
  "length (data (drained ''test'')) = 8192 \<and> 8192 \<le> offset (drained ''test'') \<and>
   go_slice 0 32 (data (Read_stream (drained ''test'') [0])) = sha256 (data (drained ''test'')) \<and>
   go_slice 32 8192 (data (Read_stream (drained ''test'') [0]))
     = go_slice 32 8192 (data (drained ''test'')) \<and>
   data (Read_stream (drained ''test'') [0]) ! 8191 = data (drained ''test'') ! 8191"
proof -
  have h: "length (data (drained ''test'')) = 8192" "8192 \<le> offset (drained ''test'')"
    by (simp_all add: drained_eq length_newRand)
  from Read_recycle_frame [OF h, of "[0]"] h show ?thesis by simp
qed

section \<open>Determinism of the key generator\<close>

lemma generateKey_unfold:
  "generateKey L name g =
     (case UnmarshalEd25519PublicKey L (Public L (NewKeyFromSeed L (sha256 (bytes_of name)))) of
        Inl e \<Rightarrow> (Some (''failed to convert to libp2p public key: '' @ e), g)
      | Inr libp2pPubKey \<Rightarrow>
     (case IDFromPublicKey L libp2pPubKey of
        Inl e \<Rightarrow> (Some (''failed to generate peer ID: '' @ e), g)
      | Inr peerID \<Rightarrow>
     (case ToCidStringOfBase L peerID of
        Inl e \<Rightarrow> (Some (''failed to convert to CIDv1: '' @ e), g)
      | Inr cidStr \<Rightarrow>
     (case MarshalPKCS8PrivateKey L (NewKeyFromSeed L (sha256 (bytes_of name))) of
        Inl e \<Rightarrow> (Some (''failed to convert key format: '' @ e), g\<lparr>keyID := cidStr\<rparr>)
      | Inr privateKeyBytes \<Rightarrow>
     (case pemEncode L ''PRIVATE KEY'' privateKeyBytes of
        Inl e \<Rightarrow> (Some (''failed to generate PEM data: '' @ e), g\<lparr>keyID := cidStr\<rparr>)
      | Inr pemBuf \<Rightarrow> (None, g\<lparr>keyID := cidStr, keyData := pemBuf\<rparr>))))))"
  by (simp add: generateKey_def Read_newRand_32 Let_def split: sum.splits)

text \<open>
  Claim C2. Two runs of the derivation for the same name give the same result, whatever
  the generator object held before: they return the same error, and when they succeed
  they leave the same generator, so the same identifier and the same exported key bytes,
  which are also what \<open>NewKeyGen\<close> returns from a fresh generator. The seed
  handed to the key generation is the digest of the name in both runs.
\<close>

theorem generateKey_deterministic:
  "fst (generateKey L name g1) = fst (generateKey L name g2) \<and>
   (fst (generateKey L name g1) = None \<longrightarrow>
      snd (generateKey L name g1) = snd (generateKey L name g2) \<and>
      GetKeyID (snd (generateKey L name g1)) = GetKeyID (snd (generateKey L name g2)) \<and>
      GetKeyData (snd (generateKey L name g1)) = GetKeyData (snd (generateKey L name g2)) \<and>
      NewKeyGen L name = Inr (snd (generateKey L name g1)))"
  by (cases g1, cases g2)
     (simp add: generateKey_unfold NewKeyGen_def Let_def GetKeyID_def GetKeyData_def
       split: sum.splits)

text \<open>Two runs for \<open>alice\<close>, one from a fresh generator and one from a used one.\<close>

theorem generateKey_deterministic_witness:
  "fst (generateKey plain_packages ''alice'' \<lparr>keyID = [], keyData = []\<rparr>) = None \<and>
   snd (generateKey plain_packages ''alice'' \<lparr>keyID = [], keyData = []\<rparr>)
     = snd (generateKey plain_packages ''alice'' \<lparr>keyID = ''stale'', keyData = [7, 7]\<rparr>) \<and>
   GetKeyID (snd (generateKey plain_packages ''alice'' \<lparr>keyID = ''stale'', keyData = [7, 7]\<rparr>))
     = ''id:'' \<and>
   GetKeyData (snd (generateKey plain_packages ''alice'' \<lparr>keyID = ''stale'', keyData = [7, 7]\<rparr>))
     = sha256 (bytes_of ''alice'')"
proof -
  have ok: "fst (generateKey plain_packages ''alice'' \<lparr>keyID = [], keyData = []\<rparr>) = None"
    by (simp add: generateKey_unfold plain_packages_def)
  have val: "generateKey plain_packages ''alice'' \<lparr>keyID = ''stale'', keyData = [7, 7]\<rparr>
      = (None, \<lparr>keyID = ''id:'', keyData = sha256 (bytes_of ''alice'')\<rparr>)"
    by (simp add: generateKey_unfold plain_packages_def)
  from generateKey_deterministic
    [of plain_packages "''alice''" "\<lparr>keyID = [], keyData = []\<rparr>"
        "\<lparr>keyID = ''stale'', keyData = [7, 7]\<rparr>"] ok
  show ?thesis
    by (simp add: val GetKeyID_def GetKeyData_def)
qed

section \<open>Errors of the key service\<close>

text \<open>
  Claim C9. \<open>GenerateAndImportKey\<close> returns an error exactly when the call of the
  importer's \<open>ImportKey\<close> on the name and the generator's key data returns one. The
  error returned is the importer's message after the text \<open>failed to import key: \<close>.
  The world after the call is the world after that one call of \<open>ImportKey\<close>: no
  second attempt is made.
\<close>

theorem GenerateAndImportKey_error:
  "generator s w = (kd, w1) \<Longrightarrow> importer s name kd w1 = (ierr, w2) \<Longrightarrow>
   (fst (GenerateAndImportKey s name w) \<noteq> None \<longleftrightarrow> ierr \<noteq> None) \<and>
   (\<forall>e. ierr = Some e \<longrightarrow>
      fst (GenerateAndImportKey s name w) = Some (''failed to import key: '' @ e)) \<and>
   snd (GenerateAndImportKey s name w) = w2"
  by (cases ierr) (simp_all add: GenerateAndImportKey_def)

text \<open>
  A run with an importer that refuses: the error is passed on with its context and the
  log of the importer holds one call.
\<close>

theorem GenerateAndImportKey_error_witness:
  "generator \<lparr>generator = DetKeyGen_generator \<lparr>keyID = ''id:'', keyData = [1, 2, 3]\<rparr>,
              importer = logging_importer (Some ''connection refused'')\<rparr> []
     = ([1, 2, 3], []) \<and>
   importer \<lparr>generator = DetKeyGen_generator \<lparr>keyID = ''id:'', keyData = [1, 2, 3]\<rparr>,
             importer = logging_importer (Some ''connection refused'')\<rparr> ''alice'' [1, 2, 3] []
     = (Some ''connection refused'', [(''alice'', [1, 2, 3])]) \<and>
   GenerateAndImportKey
     \<lparr>generator = DetKeyGen_generator \<lparr>keyID = ''id:'', keyData = [1, 2, 3]\<rparr>,
      importer = logging_importer (Some ''connection refused'')\<rparr> ''alice'' []
     = (Some ''failed to import key: connection refused'', [(''alice'', [1, 2, 3])])"
proof -
  let ?s = "\<lparr>generator = DetKeyGen_generator \<lparr>keyID = ''id:'', keyData = [1, 2, 3]\<rparr>,
             importer = logging_importer (Some ''connection refused'')\<rparr>"
  have g: "generator ?s [] = ([1, 2, 3], [])"
    by (simp add: DetKeyGen_generator_def GetKeyData_def)
  have i: "importer ?s ''alice'' [1, 2, 3] [] = (Some ''connection refused'', [(''alice'', [1, 2, 3])])"
    by (simp add: logging_importer_def)
  from GenerateAndImportKey_error [OF g i] g i show ?thesis
    by (simp add: prod_eq_iff)
qed

end
